theory Spec2Isabelle
  imports Main "HOL-Library.AList"
begin

section \<open>Data model of \<^verbatim>\<open>better_cron/cron.go\<close>\<close>

text \<open>
  \<^verbatim>\<open>JobStatus\<close> is the \<^verbatim>\<open>iota\<close> enumeration of the source. Go errors that the
  package produces are collected in one datatype: the \<^verbatim>\<open>fmt.Errorf("job panic: %v", r)\<close>
  of the worker (carrying the rendering of \<^verbatim>\<open>r\<close>), the two errors a
  \<^verbatim>\<open>context.Context\<close> reports, and the error returned by \<^verbatim>\<open>Shutdown\<close>
  (carrying \<^verbatim>\<open>ec.timeout\<close>).
\<close>

datatype JobStatus = StatusIdle | StatusRunning | StatusCompleted | StatusFailed | StatusCancelled

datatype go_error = JobPanic string | ContextCanceled | DeadlineExceeded | ShutdownTimedOut int

text \<open>
  A \<^verbatim>\<open>time.Time\<close> is a clock reading in nanoseconds or Go's zero value, which is
  \<open>None\<close> here: a field that was never assigned is \<open>None\<close>. A \<^verbatim>\<open>time.Duration\<close>
  is a signed number of nanoseconds.
\<close>

record JobMetadata =
  ID :: int
  Name :: string
  StartTime :: "nat option"
  EndTime :: "nat option"
  Status :: JobStatus
  Error :: "go_error option"

text \<open>
  \<^verbatim>\<open>activeJobs\<close> is a \<^verbatim>\<open>sync.Map\<close>: its values are \<^verbatim>\<open>interface{}\<close>, so a
  value carries its dynamic type. Two dynamic types occur in the source: the anonymous
  struct \<^verbatim>\<open>struct{metadata *JobMetadata; wg *sync.WaitGroup}\<close> that \<^verbatim>\<open>wrapJob\<close>
  stores, and \<^verbatim>\<open>*JobMetadata\<close>, which the two readers assert. Pointers are numbers;
  the metadata and the wait group that one invocation of the wrapped closure allocates
  are both addressed by the number of that invocation.
\<close>

datatype any = AnyJobInfo nat nat | AnyJobMetadataPtr nat

datatype panic = InterfaceConversion

record EnhancedCron =
  activeJobs :: "(string \<times> any) list"
  shutdownCtx :: "go_error option"
  timeout :: int
  logger :: "nat option"

text \<open>
  \<^verbatim>\<open>shutdownCtx\<close> holds \<^verbatim>\<open>ec.shutdownCtx.Err()\<close>: \<open>None\<close> until
  \<^verbatim>\<open>ec.cancelShutdown()\<close> has run. The \<^verbatim>\<open>cron\<close> field is the external scheduler;
  its firings and its stop signal are actions of the environment below.
\<close>

subsection \<open>Construction and options\<close>

text \<open>
  An \<^verbatim>\<open>Option\<close> is a closure over \<^verbatim>\<open>*EnhancedCron\<close>; the package builds exactly
  two kinds, which are the constructors here, and \<open>applyOption\<close> is the call
  \<^verbatim>\<open>opt(ec)\<close>.
\<close>

datatype Option = WithTimeout int | WithLogger nat

fun applyOption :: "Option \<Rightarrow> EnhancedCron \<Rightarrow> EnhancedCron" where
  "applyOption (WithTimeout t) e = e\<lparr>timeout := t\<rparr>"
| "applyOption (WithLogger l) e = e\<lparr>logger := Some l\<rparr>"

definition Second :: int where
  "Second = 1000000000"

definition NewEnhancedCron :: "Option list \<Rightarrow> EnhancedCron" where
  "NewEnhancedCron opts =
     fold applyOption opts
       \<lparr>activeJobs = [], shutdownCtx = None, timeout = 30 * Second, logger = None\<rparr>"

subsection \<open>The two readers\<close>

text \<open>
  \<^verbatim>\<open>value.(*JobMetadata)\<close> is the one-result form of a type assertion: it panics when
  the dynamic type differs. Both readers return pointers; \<open>None\<close> is \<^verbatim>\<open>nil\<close>.
\<close>

definition GetJobStatus :: "EnhancedCron \<Rightarrow> string \<Rightarrow> panic + (nat option \<times> bool)" where
  "GetJobStatus e n =
     (case map_of (activeJobs e) n of
        Some v \<Rightarrow>
          (case v of
             AnyJobMetadataPtr p \<Rightarrow> Inr (Some p, True)
           | AnyJobInfo m w \<Rightarrow> Inl InterfaceConversion)
      | None \<Rightarrow> Inr (None, False))"

text \<open>
  \<^verbatim>\<open>Range\<close> visits the entries one by one; \<open>heap\<close> dereferences a
  \<^verbatim>\<open>*JobMetadata\<close>, and \<open>jobs\<close> is the slice built so far.
\<close>

fun rangeActive :: "(nat \<Rightarrow> JobMetadata) \<Rightarrow> (string \<times> any) list \<Rightarrow> nat list \<Rightarrow> panic + nat list" where
  "rangeActive heap [] jobs = Inr jobs"
| "rangeActive heap ((k, AnyJobMetadataPtr p) # kvs) jobs =
     rangeActive heap kvs (if Status (heap p) = StatusRunning then jobs @ [p] else jobs)"
| "rangeActive heap ((k, AnyJobInfo m w) # kvs) jobs = Inl InterfaceConversion"

definition GetActiveJobs :: "(nat \<Rightarrow> JobMetadata) \<Rightarrow> EnhancedCron \<Rightarrow> panic + nat list" where
  "GetActiveJobs heap e = rangeActive heap (activeJobs e) []"

section \<open>Goroutines as an interleaving of statements\<close>

text \<open>
  Every invocation of the closure that \<^verbatim>\<open>wrapJob\<close> returns is numbered. It owns its
  local variables, runs three goroutines (the wrapper itself, the worker started at
  line 117 and the goroutine of \<^verbatim>\<open>waitWithTimeout\<close>) and a timer. A program counter
  names the line of the next statement of a goroutine.
\<close>

datatype work = Returns | Panics string

datatype wpc =
  W_idle | W105 | W113 | W117 | W132 | W_select | W135 | W136 | W137 | W142 | W114 | W95 | W_ret

datatype kpc = K_idle | K127 | K128 | K120 | K121 | K122 | K118 | K_end

datatype hpc = H_idle | H150 | H_closed

record exec =
  wpc :: wpc
  kpc :: kpc
  hpc :: hpc
  name :: string
  job :: work
  jobCtx :: "go_error option"
  deadline :: int
  metadata :: JobMetadata
  wg :: int
  panicking :: "string option"
  recovered :: "string option"

text \<open>
  \<open>job\<close> is what \<^verbatim>\<open>job.Run()\<close> does when it ends: it returns, or it panics with a
  value whose \<^verbatim>\<open>%v\<close> rendering is given (\<^verbatim>\<open>recover()\<close> yields a non-nil value
  exactly while the goroutine is panicking). A job that has not ended yet is a worker
  still at line 127. \<open>jobCtx\<close> is \<^verbatim>\<open>jobCtx.Err()\<close>, \<open>hpc = H_closed\<close> means that
  the channel returned by \<^verbatim>\<open>waitWithTimeout\<close> is closed.
\<close>

datatype spc = S_idle | S167 | S171 | S177 | S192 | S200 | S_ret

record shut =
  spc :: spc
  expired :: bool
  sdeadline :: int
  stopDone :: bool
  snapshot :: "nat list"
  waitFor :: "nat list"
  doneCh :: bool
  result :: "go_error option option"

text \<open>
  One call of \<^verbatim>\<open>Shutdown\<close>: \<open>expired\<close> is its local \<^verbatim>\<open>shutdownCtx.Done()\<close>,
  \<open>stopDone\<close> is \<^verbatim>\<open>stopCtx.Done()\<close>, \<open>snapshot\<close> lists the wait groups that
  \<^verbatim>\<open>Range\<close> found, \<open>waitFor\<close> those whose waiting goroutine has not yet called
  \<^verbatim>\<open>wg.Done()\<close>, \<open>doneCh\<close> says that the channel \<^verbatim>\<open>done\<close> is closed, and
  \<open>result\<close> is the returned error once the call has returned.
\<close>

record world =
  ec :: EnhancedCron
  execs :: "nat \<Rightarrow> exec"
  shuts :: "nat \<Rightarrow> shut"
  clock :: nat
  crashed :: bool

definition idle_exec :: exec where
  "idle_exec =
     \<lparr>wpc = W_idle, kpc = K_idle, hpc = H_idle, name = [], job = Returns, jobCtx = None,
      deadline = 0,
      metadata = \<lparr>ID = 0, Name = [], StartTime = None, EndTime = None,
                  Status = StatusIdle, Error = None\<rparr>,
      wg = 0, panicking = None, recovered = None\<rparr>"

definition idle_shut :: shut where
  "idle_shut =
     \<lparr>spc = S_idle, expired = False, sdeadline = 0, stopDone = False, snapshot = [],
      waitFor = [], doneCh = False, result = None\<rparr>"

definition boot :: "Option list \<Rightarrow> world" where
  "boot opts =
     \<lparr>ec = NewEnhancedCron opts, execs = (\<lambda>i. idle_exec), shuts = (\<lambda>c. idle_shut),
      clock = 0, crashed = False\<rparr>"

definition upd :: "nat \<Rightarrow> (exec \<Rightarrow> exec) \<Rightarrow> world \<Rightarrow> world" where
  "upd i f g = g\<lparr>execs := (execs g)(i := f (execs g i))\<rparr>"

definition supd :: "nat \<Rightarrow> (shut \<Rightarrow> shut) \<Rightarrow> world \<Rightarrow> world" where
  "supd c f g = g\<lparr>shuts := (shuts g)(c := f (shuts g c))\<rparr>"

definition setStatus :: "JobStatus \<Rightarrow> exec \<Rightarrow> exec" where
  "setStatus s e = e\<lparr>metadata := (metadata e)\<lparr>Status := s\<rparr>\<rparr>"

definition setError :: "go_error option \<Rightarrow> exec \<Rightarrow> exec" where
  "setError x e = e\<lparr>metadata := (metadata e)\<lparr>Error := x\<rparr>\<rparr>"

definition setEndTime :: "nat \<Rightarrow> exec \<Rightarrow> exec" where
  "setEndTime t e = e\<lparr>metadata := (metadata e)\<lparr>EndTime := Some t\<rparr>\<rparr>"

text \<open>
  \<^verbatim>\<open>context.WithTimeout(parent, d)\<close>: the new context is done at once when the parent
  is (with the parent's error) or when \<open>d \<le> 0\<close> (deadline exceeded).
\<close>

definition withTimeout :: "go_error option \<Rightarrow> int \<Rightarrow> go_error option" where
  "withTimeout parent d =
     (case parent of
        Some e \<Rightarrow> Some e
      | None \<Rightarrow> if d \<le> 0 then Some DeadlineExceeded else None)"

text \<open>
  A cancel function does nothing on a context that is already done; otherwise it sets the
  error and cancels the children, here the \<^verbatim>\<open>jobCtx\<close> of every invocation that has
  created one and whose context is not done yet.
\<close>

definition cancelCtx :: "go_error option \<Rightarrow> go_error option" where
  "cancelCtx c = (case c of Some e \<Rightarrow> Some e | None \<Rightarrow> Some ContextCanceled)"

definition propagate :: "exec \<Rightarrow> exec" where
  "propagate e = (if wpc e \<noteq> W_idle then e\<lparr>jobCtx := cancelCtx (jobCtx e)\<rparr> else e)"

definition cancelShutdown :: "world \<Rightarrow> world" where
  "cancelShutdown g =
     (case shutdownCtx (ec g) of
        Some e \<Rightarrow> g
      | None \<Rightarrow>
          g\<lparr>ec := (ec g)\<lparr>shutdownCtx := Some ContextCanceled\<rparr>,
            execs := (\<lambda>i. propagate (execs g i))\<rparr>)"

text \<open>
  The type assertions of the \<^verbatim>\<open>Range\<close> callback in \<^verbatim>\<open>Shutdown\<close> (line 178):
  the wait-group pointers of the entries, or \<open>None\<close> when an assertion panics.
\<close>

fun assertJobInfos :: "(string \<times> any) list \<Rightarrow> nat list option" where
  "assertJobInfos [] = Some []"
| "assertJobInfos ((k, AnyJobInfo m w) # kvs) = map_option ((#) w) (assertJobInfos kvs)"
| "assertJobInfos ((k, AnyJobMetadataPtr p) # kvs) = None"

datatype action =
    Fire nat string work
  | WgAdd nat
  | StoreJob nat
  | GoWorker nat
  | SelectEval nat
  | SelectCtxDone nat
  | SelectChClosed nat
  | WgWait nat
  | SetCancelled nat
  | SetCtxErr nat
  | SetEndTime nat
  | DeleteJob nat
  | CancelJobCtx nat
  | RunJob nat
  | SetCompleted nat
  | Recover nat
  | SetFailed nat
  | SetPanicErr nat
  | WgDone nat
  | CloseCh nat
  | JobDeadline nat
  | CancelShutdown nat
  | MkShutdownCtx nat
  | CronStop nat
  | RangeJobs nat
  | WaiterDone nat nat
  | GoDone nat
  | CloseDone nat
  | SelectTimeout nat
  | SelectDone nat
  | ShutdownDeadline nat
  | StopSignal nat
  | Tick nat

text \<open>
  \<open>act a g\<close> executes one statement, or is \<open>None\<close> when that statement is not the
  next one of its goroutine or is blocked. The wrapper (lines 92 to 143, the deferred
  calls of lines 114 and 95 last):
\<close>

fun act :: "action \<Rightarrow> world \<Rightarrow> world option" where
  "act (Fire i n w) g =
     (if wpc (execs g i) = W_idle then
        Some (upd i (\<lambda>e.
          \<lparr>wpc = W105, kpc = K_idle, hpc = H_idle, name = n, job = w,
           jobCtx = withTimeout (shutdownCtx (ec g)) (timeout (ec g)),
           deadline = int (clock g) + timeout (ec g),
           metadata = \<lparr>ID = 0, Name = n, StartTime = Some (clock g), EndTime = None,
                       Status = StatusRunning, Error = None\<rparr>,
           wg = 0, panicking = None, recovered = None\<rparr>) g)
      else None)"
| "act (WgAdd i) g =
     (if wpc (execs g i) = W105 then Some (upd i (\<lambda>e. e\<lparr>wg := wg e + 1, wpc := W113\<rparr>) g)
      else None)"
| "act (StoreJob i) g =
     (if wpc (execs g i) = W113 then
        Some (upd i (\<lambda>e. e\<lparr>wpc := W117\<rparr>)
          (g\<lparr>ec := (ec g)\<lparr>activeJobs :=
                AList.update (name (execs g i)) (AnyJobInfo i i) (activeJobs (ec g))\<rparr>\<rparr>))
      else None)"
| "act (GoWorker i) g =
     (if wpc (execs g i) = W117 then Some (upd i (\<lambda>e. e\<lparr>kpc := K127, wpc := W132\<rparr>) g)
      else None)"
| "act (SelectEval i) g =
     (if wpc (execs g i) = W132 then Some (upd i (\<lambda>e. e\<lparr>hpc := H150, wpc := W_select\<rparr>) g)
      else None)"
| "act (SelectCtxDone i) g =
     (if wpc (execs g i) = W_select \<and> jobCtx (execs g i) \<noteq> None
      then Some (upd i (\<lambda>e. e\<lparr>wpc := W135\<rparr>) g) else None)"
| "act (SelectChClosed i) g =
     (if wpc (execs g i) = W_select \<and> hpc (execs g i) = H_closed
      then Some (upd i (\<lambda>e. e\<lparr>wpc := W142\<rparr>) g) else None)"
| "act (WgWait i) g =
     (if wpc (execs g i) = W135 \<and> wg (execs g i) = 0
      then Some (upd i (\<lambda>e. e\<lparr>wpc := W136\<rparr>) g) else None)"
| "act (SetCancelled i) g =
     (if wpc (execs g i) = W136
      then Some (upd i (\<lambda>e. (setStatus StatusCancelled e)\<lparr>wpc := W137\<rparr>) g) else None)"
| "act (SetCtxErr i) g =
     (if wpc (execs g i) = W137
      then Some (upd i (\<lambda>e. (setError (jobCtx e) e)\<lparr>wpc := W142\<rparr>) g) else None)"
| "act (SetEndTime i) g =
     (if wpc (execs g i) = W142
      then Some (upd i (\<lambda>e. (setEndTime (clock g) e)\<lparr>wpc := W114\<rparr>) g) else None)"
| "act (DeleteJob i) g =
     (if wpc (execs g i) = W114 then
        Some (upd i (\<lambda>e. e\<lparr>wpc := W95\<rparr>)
          (g\<lparr>ec := (ec g)\<lparr>activeJobs :=
                AList.delete (name (execs g i)) (activeJobs (ec g))\<rparr>\<rparr>))
      else None)"
| "act (CancelJobCtx i) g =
     (if wpc (execs g i) = W95
      then Some (upd i (\<lambda>e. e\<lparr>jobCtx := cancelCtx (jobCtx e), wpc := W_ret\<rparr>) g) else None)"
| "act (RunJob i) g =
     (if kpc (execs g i) = K127 then
        (case job (execs g i) of
           Returns \<Rightarrow> Some (upd i (\<lambda>e. e\<lparr>kpc := K128\<rparr>) g)
         | Panics v \<Rightarrow> Some (upd i (\<lambda>e. e\<lparr>panicking := Some v, kpc := K120\<rparr>) g))
      else None)"
| "act (SetCompleted i) g =
     (if kpc (execs g i) = K128
      then Some (upd i (\<lambda>e. (setStatus StatusCompleted e)\<lparr>kpc := K120\<rparr>) g) else None)"
| "act (Recover i) g =
     (if kpc (execs g i) = K120 then
        Some (upd i (\<lambda>e. e\<lparr>recovered := panicking e, panicking := None,
                           kpc := (if panicking e \<noteq> None then K121 else K118)\<rparr>) g)
      else None)"
| "act (SetFailed i) g =
     (if kpc (execs g i) = K121
      then Some (upd i (\<lambda>e. (setStatus StatusFailed e)\<lparr>kpc := K122\<rparr>) g) else None)"
| "act (SetPanicErr i) g =
     (if kpc (execs g i) = K122 then
        (case recovered (execs g i) of
           Some v \<Rightarrow> Some (upd i (\<lambda>e. (setError (Some (JobPanic v)) e)\<lparr>kpc := K118\<rparr>) g)
         | None \<Rightarrow> None)
      else None)"
| "act (WgDone i) g =
     (if kpc (execs g i) = K118 then
        Some (upd i (\<lambda>e. e\<lparr>wg := wg e - 1, kpc := K_end\<rparr>)
          (g\<lparr>crashed := (panicking (execs g i) \<noteq> None)\<rparr>))
      else None)"
| "act (CloseCh i) g =
     (if hpc (execs g i) = H150 \<and> wg (execs g i) = 0
      then Some (upd i (\<lambda>e. e\<lparr>hpc := H_closed\<rparr>) g) else None)"
| "act (JobDeadline i) g =
     (if wpc (execs g i) \<noteq> W_idle \<and> jobCtx (execs g i) = None
         \<and> deadline (execs g i) \<le> int (clock g)
      then Some (upd i (\<lambda>e. e\<lparr>jobCtx := Some DeadlineExceeded\<rparr>) g) else None)"
| "act (CancelShutdown c) g =
     (if spc (shuts g c) = S_idle
      then Some (supd c (\<lambda>s. s\<lparr>spc := S167\<rparr>) (cancelShutdown g)) else None)"
| "act (MkShutdownCtx c) g =
     (if spc (shuts g c) = S167 then
        Some (supd c (\<lambda>s. s\<lparr>expired := (withTimeout None (timeout (ec g)) \<noteq> None),
                             sdeadline := int (clock g) + timeout (ec g),
                             spc := S171\<rparr>) g)
      else None)"
| "act (CronStop c) g =
     (if spc (shuts g c) = S171
      then Some (supd c (\<lambda>s. s\<lparr>stopDone := False, spc := S177\<rparr>) g) else None)"
| "act (RangeJobs c) g =
     (if spc (shuts g c) = S177 then
        (case assertJobInfos (activeJobs (ec g)) of
           None \<Rightarrow> Some (g\<lparr>crashed := True\<rparr>)
         | Some ws \<Rightarrow> Some (supd c (\<lambda>s. s\<lparr>snapshot := ws, waitFor := ws, spc := S192\<rparr>) g))
      else None)"
| "act (WaiterDone c j) g =
     (if j \<in> set (waitFor (shuts g c)) \<and> wg (execs g j) = 0
      then Some (supd c (\<lambda>s. s\<lparr>waitFor := remove1 j (waitFor s)\<rparr>) g) else None)"
| "act (GoDone c) g =
     (if spc (shuts g c) = S192 then Some (supd c (\<lambda>s. s\<lparr>spc := S200\<rparr>) g) else None)"
| "act (CloseDone c) g =
     (if (spc (shuts g c) = S200 \<or> spc (shuts g c) = S_ret) \<and> \<not> doneCh (shuts g c)
         \<and> waitFor (shuts g c) = [] \<and> stopDone (shuts g c)
      then Some (supd c (\<lambda>s. s\<lparr>doneCh := True\<rparr>) g) else None)"
| "act (SelectTimeout c) g =
     (if spc (shuts g c) = S200 \<and> expired (shuts g c) then
        Some (supd c (\<lambda>s. s\<lparr>result := Some (Some (ShutdownTimedOut (timeout (ec g)))),
                             spc := S_ret\<rparr>) g)
      else None)"
| "act (SelectDone c) g =
     (if spc (shuts g c) = S200 \<and> doneCh (shuts g c)
      then Some (supd c (\<lambda>s. s\<lparr>result := Some None, spc := S_ret\<rparr>) g) else None)"
| "act (ShutdownDeadline c) g =
     (if spc (shuts g c) \<noteq> S_idle \<and> spc (shuts g c) \<noteq> S167 \<and> \<not> expired (shuts g c)
         \<and> sdeadline (shuts g c) \<le> int (clock g)
      then Some (supd c (\<lambda>s. s\<lparr>expired := True\<rparr>) g) else None)"
| "act (StopSignal c) g =
     (if spc (shuts g c) \<noteq> S_idle \<and> spc (shuts g c) \<noteq> S167 \<and> spc (shuts g c) \<noteq> S171
      then Some (supd c (\<lambda>s. s\<lparr>stopDone := True\<rparr>) g) else None)"
| "act (Tick d) g = Some (g\<lparr>clock := clock g + d\<rparr>)"

text \<open>A process that has crashed on an unrecovered panic executes nothing more.\<close>

definition step :: "action \<Rightarrow> world \<Rightarrow> world option" where
  "step a g = (if crashed g then None else act a g)"

fun run :: "action list \<Rightarrow> world \<Rightarrow> world option" where
  "run [] g = Some g"
| "run (a # as) g = (case step a g of None \<Rightarrow> None | Some g' \<Rightarrow> run as g')"

section \<open>Predicates on states\<close>

definition worker_status :: "exec \<Rightarrow> JobStatus" where
  "worker_status e =
     (case job e of
        Returns \<Rightarrow>
          (case kpc e of K_idle \<Rightarrow> StatusRunning | K127 \<Rightarrow> StatusRunning
           | K128 \<Rightarrow> StatusRunning | _ \<Rightarrow> StatusCompleted)
      | Panics v \<Rightarrow>
          (case kpc e of K122 \<Rightarrow> StatusFailed | K118 \<Rightarrow> StatusFailed
           | K_end \<Rightarrow> StatusFailed | _ \<Rightarrow> StatusRunning))"

definition worker_error :: "exec \<Rightarrow> go_error option" where
  "worker_error e =
     (case job e of
        Returns \<Rightarrow> None
      | Panics v \<Rightarrow> (case kpc e of K118 \<Rightarrow> Some (JobPanic v) | K_end \<Rightarrow> Some (JobPanic v) | _ \<Rightarrow> None))"

definition wgk :: "exec \<Rightarrow> bool" where
  "wgk e = ((kpc e = K_end \<longrightarrow> wg e = 0) \<and> (kpc e \<noteq> K_end \<longrightarrow> wg e = 1)
           \<and> (hpc e = H_closed \<longrightarrow> kpc e = K_end))"

definition ctl_ok :: "exec \<Rightarrow> bool" where
  "ctl_ok e =
     (case wpc e of
        W_idle \<Rightarrow> kpc e = K_idle \<and> hpc e = H_idle \<and> wg e = 0
      | W105 \<Rightarrow> kpc e = K_idle \<and> hpc e = H_idle \<and> wg e = 0
      | W113 \<Rightarrow> kpc e = K_idle \<and> hpc e = H_idle \<and> wg e = 1
      | W117 \<Rightarrow> kpc e = K_idle \<and> hpc e = H_idle \<and> wg e = 1
      | W132 \<Rightarrow> kpc e \<noteq> K_idle \<and> hpc e = H_idle \<and> wgk e
      | W_select \<Rightarrow> kpc e \<noteq> K_idle \<and> hpc e \<noteq> H_idle \<and> wgk e
      | W135 \<Rightarrow> kpc e \<noteq> K_idle \<and> hpc e \<noteq> H_idle \<and> wgk e \<and> jobCtx e \<noteq> None
      | W136 \<Rightarrow> kpc e = K_end \<and> hpc e \<noteq> H_idle \<and> wg e = 0 \<and> jobCtx e \<noteq> None
      | W137 \<Rightarrow> kpc e = K_end \<and> hpc e \<noteq> H_idle \<and> wg e = 0 \<and> jobCtx e \<noteq> None
      | W142 \<Rightarrow> kpc e = K_end \<and> hpc e \<noteq> H_idle \<and> wg e = 0
      | W114 \<Rightarrow> kpc e = K_end \<and> hpc e \<noteq> H_idle \<and> wg e = 0
      | W95 \<Rightarrow> kpc e = K_end \<and> hpc e \<noteq> H_idle \<and> wg e = 0
      | W_ret \<Rightarrow> kpc e = K_end \<and> hpc e \<noteq> H_idle \<and> wg e = 0)"

definition panic_ok :: "exec \<Rightarrow> bool" where
  "panic_ok e =
     (case kpc e of
        K128 \<Rightarrow> panicking e = None \<and> job e = Returns
      | K120 \<Rightarrow> panicking e = (case job e of Returns \<Rightarrow> None | Panics v \<Rightarrow> Some v)
      | K121 \<Rightarrow> panicking e = None \<and> (case job e of Returns \<Rightarrow> False | Panics v \<Rightarrow> recovered e = Some v)
      | K122 \<Rightarrow> panicking e = None \<and> (case job e of Returns \<Rightarrow> False | Panics v \<Rightarrow> recovered e = Some v)
      | _ \<Rightarrow> panicking e = None)"

definition by_worker :: "exec \<Rightarrow> bool" where
  "by_worker e = (Status (metadata e) = worker_status e \<and> Error (metadata e) = worker_error e)"

definition by_wrapper :: "exec \<Rightarrow> bool" where
  "by_wrapper e =
     (Status (metadata e) = StatusCancelled \<and> Error (metadata e) = jobCtx e \<and> jobCtx e \<noteq> None)"

definition status_ok :: "exec \<Rightarrow> bool" where
  "status_ok e =
     (case wpc e of
        W_idle \<Rightarrow> Status (metadata e) = StatusIdle
      | W137 \<Rightarrow> Status (metadata e) = StatusCancelled \<and> Error (metadata e) = worker_error e
      | W142 \<Rightarrow> by_wrapper e \<or> by_worker e
      | W114 \<Rightarrow> by_wrapper e \<or> by_worker e
      | W95 \<Rightarrow> by_wrapper e \<or> by_worker e
      | W_ret \<Rightarrow> by_wrapper e \<or> by_worker e
      | _ \<Rightarrow> by_worker e)"

definition endtime_ok :: "exec \<Rightarrow> bool" where
  "endtime_ok e =
     (case wpc e of
        W114 \<Rightarrow> EndTime (metadata e) \<noteq> None
      | W95 \<Rightarrow> EndTime (metadata e) \<noteq> None
      | W_ret \<Rightarrow> EndTime (metadata e) \<noteq> None
      | _ \<Rightarrow> EndTime (metadata e) = None)"

definition stored :: "world \<Rightarrow> nat \<Rightarrow> bool" where
  "stored g w = (wpc (execs g w) \<noteq> W_idle \<and> wpc (execs g w) \<noteq> W105 \<and> wpc (execs g w) \<noteq> W113)"

definition entry_ok :: "world \<Rightarrow> string \<times> any \<Rightarrow> bool" where
  "entry_ok g kv = (case snd kv of AnyJobInfo m w \<Rightarrow> m = w \<and> stored g w | AnyJobMetadataPtr p \<Rightarrow> False)"

definition store_ok :: "world \<Rightarrow> bool" where
  "store_ok g = list_all (entry_ok g) (activeJobs (ec g))"

definition shut_inv :: "go_error option \<Rightarrow> int \<Rightarrow> nat \<Rightarrow> shut \<Rightarrow> bool" where
  "shut_inv ctx t now s =
     (case spc s of
        S_idle \<Rightarrow> \<not> doneCh s \<and> waitFor s = [] \<and> result s = None
      | S167 \<Rightarrow> ctx \<noteq> None \<and> \<not> doneCh s \<and> waitFor s = [] \<and> result s = None
      | S171 \<Rightarrow> ctx \<noteq> None \<and> (expired s \<longrightarrow> sdeadline s \<le> int now)
                \<and> \<not> doneCh s \<and> waitFor s = [] \<and> result s = None
      | S177 \<Rightarrow> ctx \<noteq> None \<and> (expired s \<longrightarrow> sdeadline s \<le> int now)
                \<and> \<not> doneCh s \<and> waitFor s = [] \<and> result s = None
      | S192 \<Rightarrow> ctx \<noteq> None \<and> (expired s \<longrightarrow> sdeadline s \<le> int now)
                \<and> \<not> doneCh s \<and> result s = None
      | S200 \<Rightarrow> ctx \<noteq> None \<and> (expired s \<longrightarrow> sdeadline s \<le> int now)
                \<and> (doneCh s \<longrightarrow> waitFor s = [] \<and> stopDone s) \<and> result s = None
      | S_ret \<Rightarrow> ctx \<noteq> None \<and> (expired s \<longrightarrow> sdeadline s \<le> int now)
                \<and> (doneCh s \<longrightarrow> waitFor s = [] \<and> stopDone s)
                \<and> ((result s = Some None \<and> doneCh s)
                    \<or> (result s = Some (Some (ShutdownTimedOut t)) \<and> expired s)))"

definition shut_ok :: "world \<Rightarrow> shut \<Rightarrow> bool" where
  "shut_ok g s = shut_inv (shutdownCtx (ec g)) (timeout (ec g)) (clock g) s"

definition snap_ok :: "world \<Rightarrow> shut \<Rightarrow> bool" where
  "snap_ok g s =
     (\<forall>j \<in> set (snapshot s). stored g j \<and> (j \<notin> set (waitFor s) \<longrightarrow> kpc (execs g j) = K_end))"

definition inv :: "world \<Rightarrow> bool" where
  "inv g =
     ((\<forall>i. ctl_ok (execs g i) \<and> panic_ok (execs g i) \<and> status_ok (execs g i)
           \<and> endtime_ok (execs g i))
    \<and> store_ok g \<and> \<not> crashed g
    \<and> (\<forall>c. shut_ok g (shuts g c) \<and> snap_ok g (shuts g c)))"

definition recordAfter :: "Option list \<Rightarrow> action list \<Rightarrow> nat \<Rightarrow> JobMetadata option" where
  "recordAfter opts as i = map_option (\<lambda>g. metadata (execs g i)) (run as (boot opts))"

definition storeAfter :: "Option list \<Rightarrow> action list \<Rightarrow> (string \<times> any) list option" where
  "storeAfter opts as = map_option (\<lambda>g. activeJobs (ec g)) (run as (boot opts))"

definition shutAfter :: "Option list \<Rightarrow> action list \<Rightarrow> nat \<Rightarrow> shut option" where
  "shutAfter opts as c = map_option (\<lambda>g. shuts g c) (run as (boot opts))"

definition terminal :: "JobStatus \<Rightarrow> bool" where
  "terminal s = (s = StatusCompleted \<or> s = StatusFailed \<or> s = StatusCancelled)"

definition worker_actions :: "nat \<Rightarrow> action list" where
  "worker_actions i = [RunJob i, SetCompleted i, Recover i, SetFailed i, SetPanicErr i, WgDone i]"

definition shutdown_actions :: "nat \<Rightarrow> action list" where
  "shutdown_actions c =
     [MkShutdownCtx c, CronStop c, RangeJobs c, GoDone c, SelectTimeout c, SelectDone c,
      ShutdownDeadline c]"

fun isWithTimeout :: "Option \<Rightarrow> bool" where
  "isWithTimeout (WithTimeout t) = True"
| "isWithTimeout (WithLogger l) = False"

definition sched_completed :: "action list" where
  "sched_completed =
     [Fire 0 ''my-job'' Returns, WgAdd 0, StoreJob 0, GoWorker 0, RunJob 0, SetCompleted 0]"

definition sched_returned :: "action list" where
  "sched_returned =
     sched_completed @ [Recover 0, WgDone 0, SelectEval 0, CloseCh 0, SelectChClosed 0, Tick 3,
       SetEndTime 0]"

definition sched_panic :: "action list" where
  "sched_panic =
     [Fire 0 ''my-job'' (Panics ''boom''), WgAdd 0, StoreJob 0, GoWorker 0, RunJob 0, Recover 0,
      SetFailed 0, SetPanicErr 0]"

definition sched_shutdown :: "action list" where
  "sched_shutdown =
     [CancelShutdown 0, MkShutdownCtx 0, CronStop 0, RangeJobs 0, GoDone 0, StopSignal 0,
      CloseDone 0]"

definition sched_two_calls :: "action list" where
  "sched_two_calls =
     sched_shutdown @ [SelectDone 0, CancelShutdown 1, MkShutdownCtx 1, CronStop 1, RangeJobs 1,
       GoDone 1]"

section \<open>Invariants of the interleaving\<close>

lemma NewEnhancedCron_fields:
  "activeJobs (NewEnhancedCron opts) = []" "shutdownCtx (NewEnhancedCron opts) = None"
proof -
  have "activeJobs (fold applyOption opts e) = activeJobs e
      \<and> shutdownCtx (fold applyOption opts e) = shutdownCtx e" for e
  proof (induction opts arbitrary: e)
    case Nil
    show ?case by simp
  next
    case (Cons x xs)
    show ?case by (cases x) (simp_all add: Cons.IH)
  qed
  then show "activeJobs (NewEnhancedCron opts) = []" "shutdownCtx (NewEnhancedCron opts) = None"
    by (simp_all add: NewEnhancedCron_def)
qed

lemmas eval_defs = boot_def NewEnhancedCron_def step_def upd_def supd_def cancelShutdown_def
  propagate_def cancelCtx_def withTimeout_def setStatus_def setError_def setEndTime_def
  idle_exec_def idle_shut_def

lemma run_snoc:
  "run (as @ [a]) g = (case run as g of None \<Rightarrow> None | Some h \<Rightarrow> step a h)"
  by (induction as arbitrary: g) (auto split: option.splits)

lemma cancelShutdown_fields [simp]:
  "execs (cancelShutdown g) i =
     (if shutdownCtx (ec g) = None then propagate (execs g i) else execs g i)"
  "shuts (cancelShutdown g) = shuts g"
  "clock (cancelShutdown g) = clock g"
  "crashed (cancelShutdown g) = crashed g"
  "timeout (ec (cancelShutdown g)) = timeout (ec g)"
  "activeJobs (ec (cancelShutdown g)) = activeJobs (ec g)"
  "shutdownCtx (ec (cancelShutdown g)) = cancelCtx (shutdownCtx (ec g))"
  by (simp_all add: cancelShutdown_def cancelCtx_def split: option.splits)

lemmas stmt_defs = step_def upd_def supd_def setStatus_def setError_def setEndTime_def

lemma ctl_ok_propagate: "ctl_ok e \<Longrightarrow> ctl_ok (propagate e)"
  by (auto simp: ctl_ok_def wgk_def propagate_def cancelCtx_def split: option.splits wpc.splits)

lemma ctl_ok_step:
  assumes "step a g = Some g'" and "ctl_ok (execs g i)"
  shows "ctl_ok (execs g' i)"
  using assms
  apply (cases a; clarsimp simp: stmt_defs ctl_ok_propagate split: if_splits option.splits work.splits)
  apply (auto simp: ctl_ok_def wgk_def cancelCtx_def split: wpc.splits)
  done

lemma panic_ok_step:
  assumes "step a g = Some g'" and "ctl_ok (execs g i)" and "panic_ok (execs g i)"
  shows "panic_ok (execs g' i)"
  using assms
  apply (cases a; clarsimp simp: stmt_defs propagate_def split: if_splits option.splits work.splits)
  apply (auto simp: panic_ok_def ctl_ok_def split: kpc.splits work.splits)
  done

lemma endtime_ok_step:
  assumes "step a g = Some g'" and "endtime_ok (execs g i)"
  shows "endtime_ok (execs g' i)"
  using assms
  apply (cases a; clarsimp simp: stmt_defs propagate_def split: if_splits option.splits work.splits)
  apply (auto simp: endtime_ok_def split: wpc.splits)
  done

lemma status_ok_step:
  assumes "step a g = Some g'" and "ctl_ok (execs g i)" and "panic_ok (execs g i)"
    and "status_ok (execs g i)"
  shows "status_ok (execs g' i)"
  using assms
  apply (cases a; clarsimp simp: stmt_defs propagate_def split: if_splits option.splits work.splits)
  apply (auto simp: status_ok_def ctl_ok_def panic_ok_def by_worker_def by_wrapper_def
           worker_status_def worker_error_def cancelCtx_def split: wpc.splits work.splits)
  done

lemma list_all_update:
  "list_all P al \<Longrightarrow> P (k, v) \<Longrightarrow> list_all P (AList.update k v al)"
  by (induction al) auto

lemma list_all_delete: "list_all P al \<Longrightarrow> list_all P (AList.delete k al)"
  by (induction al) auto

lemma stored_step:
  assumes "step a g = Some g'" and "stored g w"
  shows "stored g' w"
  using assms
  by (cases a; clarsimp simp: stmt_defs propagate_def stored_def split: if_splits option.splits work.splits)

lemma entry_ok_step: "step a g = Some g' \<Longrightarrow> entry_ok g kv \<Longrightarrow> entry_ok g' kv"
  by (auto simp: entry_ok_def stored_step split: any.splits)

lemma store_ok_step:
  assumes "step a g = Some g'" and "store_ok g"
  shows "store_ok g'"
proof -
  have mono: "list_all (entry_ok g') (activeJobs (ec g))"
    using assms by (auto simp: store_ok_def list_all_iff entry_ok_step)
  show ?thesis
    using assms(1) mono
    by (cases a; clarsimp simp: stmt_defs store_ok_def split: if_splits option.splits work.splits)
       (auto intro!: list_all_update list_all_delete simp: entry_ok_def stored_def)
qed

lemma assertJobInfos_ok:
  "list_all (entry_ok g) kvs \<Longrightarrow> \<exists>ws. assertJobInfos kvs = Some ws \<and> (\<forall>w \<in> set ws. stored g w)"
  by (induction kvs rule: assertJobInfos.induct) (auto simp: entry_ok_def)

lemma crashed_step:
  assumes "step a g = Some g'" and "\<forall>i. panic_ok (execs g i)" and "store_ok g"
  shows "\<not> crashed g'"
  using assms assertJobInfos_ok[of g "activeJobs (ec g)"]
  apply (cases a; clarsimp simp: stmt_defs store_ok_def split: if_splits option.splits work.splits)
  apply (auto simp: panic_ok_def split: kpc.splits)
  done

lemma cancelCtx_Some [simp]: "cancelCtx c \<noteq> None"
  by (simp add: cancelCtx_def split: option.splits)

lemma shut_ok_step:
  assumes "step a g = Some g'" and "shut_ok g (shuts g c)"
  shows "shut_ok g' (shuts g' c)"
  using assms
  apply (cases a; clarsimp simp: stmt_defs shut_ok_def split: if_splits option.splits work.splits)
  apply (auto simp: shut_inv_def withTimeout_def split: spc.splits)
  done

lemma kend_step:
  assumes "step a g = Some g'" and "ctl_ok (execs g j)" and "kpc (execs g j) = K_end"
  shows "kpc (execs g' j) = K_end"
  using assms
  by (cases a; clarsimp simp: stmt_defs propagate_def ctl_ok_def split: if_splits option.splits work.splits)

lemma snap_frame:
  assumes "step a g = Some g'" and "a \<noteq> RangeJobs c" and "\<forall>j. a \<noteq> WaiterDone c j"
  shows "snapshot (shuts g' c) = snapshot (shuts g c) \<and> waitFor (shuts g' c) = waitFor (shuts g c)"
  using assms
  by (cases a; clarsimp simp: stmt_defs split: if_splits option.splits work.splits)

lemma wg_zero_end:
  "ctl_ok e \<Longrightarrow> wpc e \<noteq> W_idle \<Longrightarrow> wpc e \<noteq> W105 \<Longrightarrow> wpc e \<noteq> W113 \<Longrightarrow> wg e = 0
   \<Longrightarrow> kpc e = K_end"
  by (auto simp: ctl_ok_def wgk_def split: wpc.splits)

lemma snap_ok_range:
  assumes st: "step (RangeJobs c) g = Some g'" and so: "store_ok g"
  shows "snap_ok g' (shuts g' c)"
proof -
  from so obtain ws where ws: "assertJobInfos (activeJobs (ec g)) = Some ws"
    and all: "\<forall>w \<in> set ws. stored g w"
    using assertJobInfos_ok[of g "activeJobs (ec g)"] by (auto simp: store_ok_def)
  from st ws have "snapshot (shuts g' c) = ws" "waitFor (shuts g' c) = ws" "execs g' = execs g"
    by (auto simp: stmt_defs split: if_splits)
  with all show ?thesis by (simp add: snap_ok_def stored_def)
qed

lemma snap_ok_waiter:
  assumes st: "step (WaiterDone c j) g = Some g'" and ctl: "ctl_ok (execs g j)"
    and sn: "snap_ok g (shuts g c)"
  shows "snap_ok g' (shuts g' c)"
proof -
  from st have ex: "execs g' = execs g" and j: "wg (execs g j) = 0"
    and wf: "waitFor (shuts g' c) = remove1 j (waitFor (shuts g c))"
    and sp: "snapshot (shuts g' c) = snapshot (shuts g c)"
    by (auto simp: stmt_defs split: if_splits)
  show ?thesis
    unfolding snap_ok_def
  proof
    fix k assume k: "k \<in> set (snapshot (shuts g' c))"
    with sn sp have sk: "stored g k"
      and fin: "k \<notin> set (waitFor (shuts g c)) \<longrightarrow> kpc (execs g k) = K_end"
      by (auto simp: snap_ok_def)
    have "k \<notin> set (waitFor (shuts g' c)) \<longrightarrow> kpc (execs g k) = K_end"
    proof (cases "k = j")
      case True
      with sk j ctl show ?thesis by (auto simp: stored_def intro: wg_zero_end)
    next
      case False
      with fin wf show ?thesis by simp
    qed
    with sk ex show "stored g' k \<and> (k \<notin> set (waitFor (shuts g' c)) \<longrightarrow> kpc (execs g' k) = K_end)"
      by (simp add: stored_def)
  qed
qed

lemma snap_ok_step:
  assumes st: "step a g = Some g'" and ctl: "\<forall>i. ctl_ok (execs g i)" and so: "store_ok g"
    and sn: "snap_ok g (shuts g c)"
  shows "snap_ok g' (shuts g' c)"
proof (cases "a = RangeJobs c \<or> (\<exists>j. a = WaiterDone c j)")
  case True
  then show ?thesis
    using snap_ok_range[of c g g'] snap_ok_waiter[of c _ g g'] st ctl so sn by blast
next
  case False
  with snap_frame[OF st, of c] have fr: "snapshot (shuts g' c) = snapshot (shuts g c)"
    "waitFor (shuts g' c) = waitFor (shuts g c)" by auto
  show ?thesis
    using sn ctl unfolding snap_ok_def fr
    by (auto intro: stored_step[OF st] kend_step[OF st])
qed

lemma inv_boot: "inv (boot opts)"
  by (simp add: inv_def boot_def idle_exec_def idle_shut_def ctl_ok_def panic_ok_def
        status_ok_def endtime_ok_def store_ok_def shut_ok_def shut_inv_def snap_ok_def
        NewEnhancedCron_fields)

lemma inv_step:
  assumes st: "step a g = Some g'" and i: "inv g"
  shows "inv g'"
proof -
  from i have ex: "\<And>i. ctl_ok (execs g i)" "\<And>i. panic_ok (execs g i)"
    "\<And>i. status_ok (execs g i)" "\<And>i. endtime_ok (execs g i)"
    and so: "store_ok g" and sh: "\<And>c. shut_ok g (shuts g c)" "\<And>c. snap_ok g (shuts g c)"
    by (auto simp: inv_def)
  have "ctl_ok (execs g' i) \<and> panic_ok (execs g' i) \<and> status_ok (execs g' i) \<and> endtime_ok (execs g' i)" for i
    using ctl_ok_step[OF st ex(1)] panic_ok_step[OF st ex(1) ex(2)]
      status_ok_step[OF st ex(1) ex(2) ex(3)] endtime_ok_step[OF st ex(4)] by blast
  moreover have "store_ok g'" by (rule store_ok_step[OF st so])
  moreover have "\<not> crashed g'" using crashed_step[OF st _ so] ex(2) by blast
  moreover have "shut_ok g' (shuts g' c) \<and> snap_ok g' (shuts g' c)" for c
    using shut_ok_step[OF st sh(1)] snap_ok_step[OF st _ so sh(2)] ex(1) by blast
  ultimately show ?thesis by (simp add: inv_def)
qed

lemma inv_run_from: "run as g0 = Some g \<Longrightarrow> inv g0 \<Longrightarrow> inv g"
  by (induction as arbitrary: g0) (auto split: option.splits intro: inv_step)

lemma inv_run: "run as (boot opts) = Some g \<Longrightarrow> inv g"
  by (rule inv_run_from[OF _ inv_boot])

lemma inv_exec:
  "inv g \<Longrightarrow> ctl_ok (execs g i) \<and> panic_ok (execs g i) \<and> status_ok (execs g i) \<and> endtime_ok (execs g i)"
  by (simp add: inv_def)

lemma timeout_step: "step a g = Some g' \<Longrightarrow> timeout (ec g') = timeout (ec g)"
  by (cases a; clarsimp simp: stmt_defs split: if_splits option.splits work.splits)

lemma timeout_run: "run as g0 = Some g \<Longrightarrow> timeout (ec g) = timeout (ec g0)"
  by (induction as arbitrary: g0) (auto split: option.splits dest: timeout_step)

lemma endtime_terminal:
  assumes "ctl_ok e" "panic_ok e" "status_ok e" "endtime_ok e" "EndTime (metadata e) \<noteq> None"
  shows "terminal (Status (metadata e)) \<and> kpc e = K_end"
  using assms
  by (auto simp: ctl_ok_def status_ok_def endtime_ok_def terminal_def by_worker_def
        by_wrapper_def worker_status_def split: wpc.splits work.splits)

lemma worker_frame:
  assumes "step a g = Some g'" and "a \<in> set (worker_actions i)" and "\<not> crashed g'"
  shows "ec g' = ec g \<and> shuts g' = shuts g \<and> clock g' = clock g \<and> (\<forall>j. j \<noteq> i \<longrightarrow> execs g' j = execs g j)"
  using assms
  by (auto simp: worker_actions_def stmt_defs split: if_splits work.splits option.splits)

lemma worker_enabled:
  assumes "ctl_ok e" "panic_ok e" "e = execs g i" "\<not> crashed g" "kpc e \<noteq> K_idle" "kpc e \<noteq> K_end"
  shows "\<exists>a \<in> set (worker_actions i). step a g \<noteq> None"
  using assms
  by (cases "kpc e")
     (auto simp: worker_actions_def stmt_defs panic_ok_def split: work.splits option.splits)

lemma panic_status:
  assumes "ctl_ok e" "panic_ok e" "status_ok e" "job e = Panics v"
  shows "(kpc e = K118 \<longrightarrow> Status (metadata e) = StatusFailed \<and> Error (metadata e) = Some (JobPanic v)
            \<and> panicking e = None)
       \<and> (kpc e = K_end \<longrightarrow> (Status (metadata e) = StatusFailed \<and> Error (metadata e) = Some (JobPanic v))
            \<or> Status (metadata e) = StatusCancelled)"
  using assms
  by (auto simp: ctl_ok_def panic_ok_def status_ok_def by_worker_def by_wrapper_def
        worker_status_def worker_error_def split: wpc.splits)

lemma inv_shut: "inv g \<Longrightarrow> shut_ok g (shuts g c) \<and> snap_ok g (shuts g c) \<and> \<not> crashed g"
  by (simp add: inv_def)

lemma stored_wg:
  "ctl_ok (execs g j) \<Longrightarrow> stored g j \<Longrightarrow> kpc (execs g j) = K_end \<Longrightarrow> wg (execs g j) = 0"
  by (auto simp: ctl_ok_def wgk_def stored_def split: wpc.splits)

lemma done_complete:
  assumes "inv g" and "doneCh (shuts g c)"
  shows "stopDone (shuts g c)
       \<and> (\<forall>j \<in> set (snapshot (shuts g c)). wg (execs g j) = 0 \<and> kpc (execs g j) = K_end)"
proof -
  from assms inv_shut[OF assms(1), of c]
  have w: "waitFor (shuts g c) = []" and sd: "stopDone (shuts g c)"
    by (auto simp: shut_ok_def shut_inv_def split: spc.splits)
  have "wg (execs g j) = 0 \<and> kpc (execs g j) = K_end" if "j \<in> set (snapshot (shuts g c))" for j
  proof -
    from that inv_shut[OF assms(1), of c] w have "stored g j" "kpc (execs g j) = K_end"
      by (auto simp: snap_ok_def)
    with inv_exec[OF assms(1), of j] stored_wg show ?thesis by blast
  qed
  with sd show ?thesis by blast
qed

lemma result_facts:
  assumes "inv g"
  shows "(result (shuts g c) = Some None \<longrightarrow> doneCh (shuts g c))
       \<and> (result (shuts g c) = Some (Some e) \<longrightarrow>
            e = ShutdownTimedOut (timeout (ec g)) \<and> expired (shuts g c))
       \<and> (expired (shuts g c) \<and> spc (shuts g c) \<noteq> S_idle \<and> spc (shuts g c) \<noteq> S167 \<longrightarrow>
            sdeadline (shuts g c) \<le> int (clock g))
       \<and> (spc (shuts g c) = S_ret \<longrightarrow> result (shuts g c) \<noteq> None)
       \<and> (spc (shuts g c) \<noteq> S_ret \<longrightarrow> result (shuts g c) = None)
       \<and> (spc (shuts g c) \<noteq> S_idle \<longrightarrow> shutdownCtx (ec g) \<noteq> None)"
  using inv_shut[OF assms, of c]
  by (auto simp: shut_ok_def shut_inv_def split: spc.splits)

lemma select_enabled:
  assumes "\<not> crashed g" and "spc (shuts g c) = S200"
  shows "(step (SelectDone c) g \<noteq> None \<longleftrightarrow> doneCh (shuts g c))
       \<and> (step (SelectTimeout c) g \<noteq> None \<longleftrightarrow> expired (shuts g c))"
  using assms by (simp add: step_def)

lemma cancel_again:
  assumes "\<not> crashed g" and "shutdownCtx (ec g) \<noteq> None" and "spc (shuts g c) = S_idle"
  shows "\<exists>g'. step (CancelShutdown c) g = Some g' \<and> ec g' = ec g \<and> execs g' = execs g
            \<and> clock g' = clock g \<and> spc (shuts g' c) = S167"
  using assms by (auto simp: stmt_defs cancelShutdown_def)

lemma shutdown_progress:
  assumes "inv g" and "spc (shuts g c) \<noteq> S_idle" and "spc (shuts g c) \<noteq> S_ret"
  shows "(\<exists>a \<in> set (shutdown_actions c). step a g \<noteq> None) \<or> int (clock g) < sdeadline (shuts g c)"
proof -
  from assms(1) have nc: "\<not> crashed g" and so: "store_ok g" by (simp_all add: inv_def)
  from so obtain ws where ws: "assertJobInfos (activeJobs (ec g)) = Some ws"
    using assertJobInfos_ok[of g "activeJobs (ec g)"] by (auto simp: store_ok_def)
  show ?thesis
  proof (cases "spc (shuts g c)")
    case S200
    show ?thesis
    proof (cases "doneCh (shuts g c) \<or> expired (shuts g c) \<or> sdeadline (shuts g c) \<le> int (clock g)")
      case True
      with S200 nc show ?thesis by (auto simp: shutdown_actions_def step_def)
    next
      case False
      then show ?thesis by simp
    qed
  qed (use assms nc ws in \<open>auto simp: shutdown_actions_def stmt_defs\<close>)
qed

lemma NewEnhancedCron_timeout:
  "timeout (fold applyOption opts e) = (if list_ex isWithTimeout opts then timeout (fold applyOption opts e) else timeout e)"
  by (induction opts arbitrary: e) (auto elim: isWithTimeout.elims)

section \<open>The readers against what the wrapper stores\<close>

text \<open>
  Claim C2. \<^verbatim>\<open>GetJobStatus\<close> is documented to return the current status of a job by
  name. The wrapper stores the anonymous struct (line 113) and the reader asserts
  \<^verbatim>\<open>*JobMetadata\<close> (line 211): after the firing of a job named \<^verbatim>\<open>my-job\<close> has
  executed its \<^verbatim>\<open>Store\<close>, the call \<^verbatim>\<open>GetJobStatus("my-job")\<close> panics instead of
  returning the record with \<^verbatim>\<open>found = true\<close>, while a name that is not registered
  yields \<^verbatim>\<open>(nil, false)\<close>.
\<close>

theorem GetJobStatus_registered_panics:
  "map_option (\<lambda>g. (GetJobStatus (ec g) ''my-job'', GetJobStatus (ec g) ''other''))
     (run [Fire 0 ''my-job'' Returns, WgAdd 0, StoreJob 0] (boot []))
   = Some (Inl InterfaceConversion, Inr (None, False))"
  by (simp add: eval_defs GetJobStatus_def)

text \<open>
  Claim C3. \<^verbatim>\<open>GetActiveJobs\<close> is documented to return all currently running jobs.
  Its \<^verbatim>\<open>Range\<close> callback makes the same assertion (line 220): with one running job
  registered the call panics instead of returning that job's record; on the empty store
  it returns the empty slice.
\<close>

theorem GetActiveJobs_registered_panics:
  "map_option (\<lambda>g. (Status (metadata (execs g 0)),
                    GetActiveJobs (\<lambda>p. metadata (execs g p)) (ec g)))
     (run [Fire 0 ''my-job'' Returns, WgAdd 0, StoreJob 0] (boot []))
   = Some (StatusRunning, Inl InterfaceConversion)
   \<and> GetActiveJobs (\<lambda>p. metadata (execs (boot []) p)) (ec (boot [])) = Inr []"
  by (simp add: eval_defs GetActiveJobs_def)

text \<open>
  Claim C4, as amended. In every reachable state of a record, \<^verbatim>\<open>EndTime\<close> is unset
  while the status is Running, and a set \<^verbatim>\<open>EndTime\<close> means that the status is terminal
  and the work's completion signal has fired: the wrapper assigns it (line 142) after the
  select, not when the status leaves Running.
\<close>

theorem endtime_only_after_terminal:
  assumes "run as (boot opts) = Some g"
  shows "(Status (metadata (execs g i)) = StatusRunning \<longrightarrow> EndTime (metadata (execs g i)) = None)
       \<and> (EndTime (metadata (execs g i)) \<noteq> None \<longrightarrow>
            terminal (Status (metadata (execs g i))) \<and> kpc (execs g i) = K_end)"
proof -
  have t: "EndTime (metadata (execs g i)) \<noteq> None \<Longrightarrow>
      terminal (Status (metadata (execs g i))) \<and> kpc (execs g i) = K_end"
    using endtime_terminal[of "execs g i"] inv_exec[OF inv_run[OF assms], of i] by blast
  show ?thesis
  proof (cases "EndTime (metadata (execs g i)) = None")
    case True
    then show ?thesis by simp
  next
    case False
    with t show ?thesis by (auto simp: terminal_def)
  qed
qed

theorem endtime_only_after_terminal_witness:
  "run sched_returned (boot []) \<noteq> None
   \<and> map_option EndTime (recordAfter [] sched_returned 0) = Some (Some 3)
   \<and> map_option Status (recordAfter [] sched_returned 0) = Some StatusCompleted
   \<and> terminal (Status (metadata (execs (the (run sched_returned (boot []))) 0)))"
proof -
  have r: "run sched_returned (boot []) = Some (the (run sched_returned (boot [])))"
    by (simp add: sched_returned_def sched_completed_def eval_defs)
  have e: "map_option EndTime (recordAfter [] sched_returned 0) = Some (Some 3)"
    "map_option Status (recordAfter [] sched_returned 0) = Some StatusCompleted"
    by (simp_all add: recordAfter_def sched_returned_def sched_completed_def eval_defs)
  then have "EndTime (metadata (execs (the (run sched_returned (boot []))) 0)) \<noteq> None"
    using r by (auto simp: recordAfter_def)
  with endtime_only_after_terminal[OF r, of 0] e r show ?thesis by auto
qed

text \<open>
  The claim as stated fails: after the worker has executed line 128 and before the
  wrapper reaches line 142, the record (still in the store) has the terminal status
  Completed and no \<^verbatim>\<open>EndTime\<close>.
\<close>

theorem terminal_status_without_endtime:
  "map_option Status (recordAfter [] sched_completed 0) = Some StatusCompleted
   \<and> map_option EndTime (recordAfter [] sched_completed 0) = Some None
   \<and> storeAfter [] sched_completed = Some [(''my-job'', AnyJobInfo 0 0)]"
  by (simp add: recordAfter_def storeAfter_def sched_completed_def eval_defs)

text \<open>
  Claim C7. When \<^verbatim>\<open>job.Run()\<close> panics, the deferred function of the worker goroutine
  recovers the panic: at the worker's \<^verbatim>\<open>wg.Done()\<close> the goroutine is no longer panicking
  and the record is Failed with the error \<^verbatim>\<open>job panic: v\<close>, which stays so unless the
  wrapper later records Cancelled. The process never crashes, the worker is never blocked
  before it has signalled completion, and the worker's statements change nothing but its
  own invocation's variables.
\<close>

theorem panic_recovered_as_failed:
  assumes "run as (boot opts) = Some g" and "job (execs g i) = Panics v"
  shows "\<not> crashed g
       \<and> (kpc (execs g i) = K118 \<longrightarrow>
            Status (metadata (execs g i)) = StatusFailed
            \<and> Error (metadata (execs g i)) = Some (JobPanic v)
            \<and> panicking (execs g i) = None)
       \<and> (kpc (execs g i) = K_end \<longrightarrow>
            (Status (metadata (execs g i)) = StatusFailed
             \<and> Error (metadata (execs g i)) = Some (JobPanic v))
            \<or> Status (metadata (execs g i)) = StatusCancelled)
       \<and> (kpc (execs g i) \<noteq> K_idle \<and> kpc (execs g i) \<noteq> K_end \<longrightarrow>
            (\<exists>a \<in> set (worker_actions i). step a g \<noteq> None))
       \<and> (\<forall>a \<in> set (worker_actions i). \<forall>g'. step a g = Some g' \<longrightarrow>
            \<not> crashed g' \<and> ec g' = ec g \<and> shuts g' = shuts g
            \<and> (\<forall>j. j \<noteq> i \<longrightarrow> execs g' j = execs g j))"
proof -
  have i: "inv g" by (rule inv_run[OF assms(1)])
  then have nc: "\<not> crashed g" by (simp add: inv_def)
  note ex = inv_exec[OF i, of i]
  have fr: "\<not> crashed g' \<and> ec g' = ec g \<and> shuts g' = shuts g \<and> (\<forall>j. j \<noteq> i \<longrightarrow> execs g' j = execs g j)"
    if "a \<in> set (worker_actions i)" "step a g = Some g'" for a g'
  proof -
    from inv_step[OF that(2) i] have "\<not> crashed g'" by (simp add: inv_def)
    with worker_frame[OF that(2) that(1)] show ?thesis by simp
  qed
  have en: "kpc (execs g i) \<noteq> K_idle \<and> kpc (execs g i) \<noteq> K_end \<longrightarrow>
            (\<exists>a \<in> set (worker_actions i). step a g \<noteq> None)"
    using worker_enabled[of "execs g i" g i] ex nc by blast
  show ?thesis
    using nc panic_status[of "execs g i" v] ex assms(2) en fr by blast
qed

theorem panic_recovered_as_failed_witness:
  "run sched_panic (boot []) \<noteq> None
   \<and> job (execs (the (run sched_panic (boot []))) 0) = Panics ''boom''
   \<and> kpc (execs (the (run sched_panic (boot []))) 0) = K118
   \<and> Status (metadata (execs (the (run sched_panic (boot []))) 0)) = StatusFailed
   \<and> Error (metadata (execs (the (run sched_panic (boot []))) 0)) = Some (JobPanic ''boom'')
   \<and> WgDone 0 \<in> set (worker_actions 0)
   \<and> step (WgDone 0) (the (run sched_panic (boot []))) \<noteq> None
   \<and> \<not> crashed (the (step (WgDone 0) (the (run sched_panic (boot [])))))"
proof -
  have r: "run sched_panic (boot []) = Some (the (run sched_panic (boot [])))"
    by (simp add: sched_panic_def eval_defs)
  have j: "job (execs (the (run sched_panic (boot []))) 0) = Panics ''boom''"
    and k: "kpc (execs (the (run sched_panic (boot []))) 0) = K118"
    by (simp_all add: sched_panic_def eval_defs)
  have w: "WgDone 0 \<in> set (worker_actions 0)" by (simp add: worker_actions_def)
  have s: "step (WgDone 0) (the (run sched_panic (boot [])))
         = Some (the (step (WgDone 0) (the (run sched_panic (boot [])))))"
    using k r by (simp add: step_def) (simp add: sched_panic_def eval_defs)
  from panic_recovered_as_failed[OF r j] k w s r j show ?thesis by auto
qed

text \<open>
  Claim C6, as amended. \<^verbatim>\<open>Shutdown\<close> returns \<^verbatim>\<open>nil\<close> only when the channel
  \<^verbatim>\<open>done\<close> is closed, that is when the completion signal of every execution found in
  the store at line 177 and the stop signal have fired; it returns the timeout error,
  carrying \<^verbatim>\<open>ec.timeout\<close>, only when its timeout has elapsed. At the select the first
  case can be taken exactly when the timeout context is done and the second exactly when
  \<^verbatim>\<open>done\<close> is closed, so when both hold either result can be returned.
\<close>

theorem shutdown_result_sound:
  assumes "run as (boot opts) = Some g"
  shows "(result (shuts g c) = Some None \<longrightarrow>
            stopDone (shuts g c)
            \<and> (\<forall>j \<in> set (snapshot (shuts g c)). wg (execs g j) = 0 \<and> kpc (execs g j) = K_end))
       \<and> (result (shuts g c) = Some (Some e) \<longrightarrow>
            e = ShutdownTimedOut (timeout (NewEnhancedCron opts))
            \<and> sdeadline (shuts g c) \<le> int (clock g))
       \<and> (spc (shuts g c) = S200 \<longrightarrow>
            (step (SelectDone c) g \<noteq> None \<longleftrightarrow> doneCh (shuts g c))
            \<and> (step (SelectTimeout c) g \<noteq> None \<longleftrightarrow> expired (shuts g c)))
       \<and> (doneCh (shuts g c) \<longrightarrow>
            stopDone (shuts g c)
            \<and> (\<forall>j \<in> set (snapshot (shuts g c)). wg (execs g j) = 0 \<and> kpc (execs g j) = K_end))
       \<and> (expired (shuts g c) \<and> spc (shuts g c) \<noteq> S_idle \<and> spc (shuts g c) \<noteq> S167 \<longrightarrow>
            sdeadline (shuts g c) \<le> int (clock g))"
proof -
  have i: "inv g" by (rule inv_run[OF assms])
  have t: "timeout (ec g) = timeout (NewEnhancedCron opts)"
    using timeout_run[OF assms] by (simp add: boot_def)
  have nc: "\<not> crashed g" using i by (simp add: inv_def)
  note rf = result_facts[OF i, of c e]
  have a: "result (shuts g c) = Some None \<longrightarrow>
            stopDone (shuts g c)
            \<and> (\<forall>j \<in> set (snapshot (shuts g c)). wg (execs g j) = 0 \<and> kpc (execs g j) = K_end)"
    using rf done_complete[OF i, of c] by blast
  have b: "result (shuts g c) = Some (Some e) \<longrightarrow>
            e = ShutdownTimedOut (timeout (NewEnhancedCron opts))
            \<and> sdeadline (shuts g c) \<le> int (clock g)"
    using rf t by auto
  have c: "spc (shuts g c) = S200 \<longrightarrow>
            (step (SelectDone c) g \<noteq> None \<longleftrightarrow> doneCh (shuts g c))
            \<and> (step (SelectTimeout c) g \<noteq> None \<longleftrightarrow> expired (shuts g c))"
    using select_enabled[OF nc, of c] by blast
  have d: "doneCh (shuts g c) \<longrightarrow>
            stopDone (shuts g c)
            \<and> (\<forall>j \<in> set (snapshot (shuts g c)). wg (execs g j) = 0 \<and> kpc (execs g j) = K_end)"
    using done_complete[OF i, of c] by blast
  from a b c d rf show ?thesis by blast
qed

theorem shutdown_result_sound_witness:
  "run (sched_shutdown @ [SelectDone 0]) (boot []) \<noteq> None
   \<and> map_option result (shutAfter [] (sched_shutdown @ [SelectDone 0]) 0) = Some (Some None)
   \<and> stopDone (shuts (the (run (sched_shutdown @ [SelectDone 0]) (boot []))) 0)
   \<and> run (sched_shutdown @ [Tick 30000000000, ShutdownDeadline 0, SelectTimeout 0]) (boot []) \<noteq> None
   \<and> map_option result
        (shutAfter [] (sched_shutdown @ [Tick 30000000000, ShutdownDeadline 0, SelectTimeout 0]) 0)
      = Some (Some (Some (ShutdownTimedOut (30 * Second))))
   \<and> spc (shuts (the (run sched_shutdown (boot []))) 0) = S200
   \<and> step (SelectDone 0) (the (run sched_shutdown (boot []))) \<noteq> None"
proof -
  let ?a = "sched_shutdown @ [SelectDone 0]"
  let ?b = "sched_shutdown @ [Tick 30000000000, ShutdownDeadline 0, SelectTimeout 0]"
  have ra: "run ?a (boot []) = Some (the (run ?a (boot [])))"
    and rb: "run ?b (boot []) = Some (the (run ?b (boot [])))"
    and rc: "run sched_shutdown (boot []) = Some (the (run sched_shutdown (boot [])))"
    by (simp_all add: sched_shutdown_def eval_defs Second_def)
  have ea: "result (shuts (the (run ?a (boot []))) 0) = Some None"
    and eb: "result (shuts (the (run ?b (boot []))) 0) = Some (Some (ShutdownTimedOut (30 * Second)))"
    and ec: "spc (shuts (the (run sched_shutdown (boot []))) 0) = S200"
      "doneCh (shuts (the (run sched_shutdown (boot []))) 0)"
    by (simp_all add: sched_shutdown_def eval_defs Second_def)
  from shutdown_result_sound[OF ra, of 0] shutdown_result_sound[OF rb, of 0]
    shutdown_result_sound[OF rc, of 0] ra rb rc ea eb ec
  show ?thesis by (auto simp: shutAfter_def)
qed

text \<open>
  The claim as stated fails in both directions when both channels are ready at the
  select. With a zero timeout the context of line 167 is done before the stop signal
  exists, yet the call can return \<^verbatim>\<open>nil\<close>; with a timeout of five nanoseconds and
  \<^verbatim>\<open>done\<close> closed at once, the call can still return the timeout error when it
  reaches its select after the deadline.
\<close>

theorem shutdown_select_race:
  "map_option expired (shutAfter [WithTimeout 0] [CancelShutdown 0, MkShutdownCtx 0] 0) = Some True
   \<and> map_option doneCh (shutAfter [WithTimeout 0] [CancelShutdown 0, MkShutdownCtx 0] 0) = Some False
   \<and> map_option result (shutAfter [WithTimeout 0] (sched_shutdown @ [SelectDone 0]) 0) = Some (Some None)
   \<and> map_option doneCh (shutAfter [WithTimeout 5] sched_shutdown 0) = Some True
   \<and> map_option expired (shutAfter [WithTimeout 5] sched_shutdown 0) = Some False
   \<and> map_option result
        (shutAfter [WithTimeout 5] (sched_shutdown @ [Tick 5, ShutdownDeadline 0, SelectTimeout 0]) 0)
      = Some (Some (Some (ShutdownTimedOut 5)))"
  by (simp add: shutAfter_def sched_shutdown_def eval_defs)

text \<open>
  Claim C8. Once a first call of \<^verbatim>\<open>Shutdown\<close> has returned, a second call neither
  faults nor blocks for good. The process has not crashed; \<^verbatim>\<open>ec.cancelShutdown()\<close> of
  the second call is enabled and changes neither the scheduler's fields nor any job
  context; while the second call has not returned, one of its statements (or its timer)
  can execute unless the clock is still before the deadline of its own timeout context;
  and a call that has returned has a result.
\<close>

theorem second_shutdown_safe:
  assumes "run as (boot opts) = Some g" and "spc (shuts g c1) = S_ret"
  shows "\<not> crashed g
       \<and> (spc (shuts g c2) = S_idle \<longrightarrow>
            (\<exists>g'. step (CancelShutdown c2) g = Some g' \<and> ec g' = ec g \<and> execs g' = execs g
                   \<and> spc (shuts g' c2) = S167))
       \<and> (spc (shuts g c2) \<noteq> S_idle \<and> spc (shuts g c2) \<noteq> S_ret \<longrightarrow>
            (\<exists>a \<in> set (shutdown_actions c2). step a g \<noteq> None)
            \<or> int (clock g) < sdeadline (shuts g c2))
       \<and> (spc (shuts g c2) = S_ret \<longrightarrow> result (shuts g c2) \<noteq> None)"
proof -
  have i: "inv g" by (rule inv_run[OF assms(1)])
  then have nc: "\<not> crashed g" by (simp add: inv_def)
  have tok: "shutdownCtx (ec g) \<noteq> None"
    using result_facts[OF i, of c1] assms(2) by simp
  have a: "spc (shuts g c2) = S_idle \<longrightarrow>
            (\<exists>g'. step (CancelShutdown c2) g = Some g' \<and> ec g' = ec g \<and> execs g' = execs g
                   \<and> spc (shuts g' c2) = S167)"
    using cancel_again[OF nc tok, of c2] by blast
  have b: "spc (shuts g c2) \<noteq> S_idle \<and> spc (shuts g c2) \<noteq> S_ret \<longrightarrow>
            (\<exists>a \<in> set (shutdown_actions c2). step a g \<noteq> None)
            \<or> int (clock g) < sdeadline (shuts g c2)"
    using shutdown_progress[OF i, of c2] by blast
  have c: "spc (shuts g c2) = S_ret \<longrightarrow> result (shuts g c2) \<noteq> None"
    using result_facts[OF i, of c2] by blast
  from nc a b c show ?thesis by blast
qed

theorem second_shutdown_safe_witness:
  "run sched_two_calls (boot []) \<noteq> None
   \<and> spc (shuts (the (run sched_two_calls (boot []))) 0) = S_ret
   \<and> spc (shuts (the (run sched_two_calls (boot []))) 1) = S200
   \<and> spc (shuts (the (run sched_two_calls (boot []))) 2) = S_idle
   \<and> \<not> crashed (the (run sched_two_calls (boot [])))
   \<and> result (shuts (the (run sched_two_calls (boot []))) 0) \<noteq> None
   \<and> step (CancelShutdown 2) (the (run sched_two_calls (boot []))) \<noteq> None
   \<and> int (clock (the (run sched_two_calls (boot [])))) < sdeadline (shuts (the (run sched_two_calls (boot []))) 1)"
proof -
  have r: "run sched_two_calls (boot []) = Some (the (run sched_two_calls (boot [])))"
    by (simp add: sched_two_calls_def sched_shutdown_def eval_defs)
  have e: "spc (shuts (the (run sched_two_calls (boot []))) 0) = S_ret"
    "spc (shuts (the (run sched_two_calls (boot []))) 1) = S200"
    "spc (shuts (the (run sched_two_calls (boot []))) 2) = S_idle"
    "int (clock (the (run sched_two_calls (boot [])))) < sdeadline (shuts (the (run sched_two_calls (boot []))) 1)"
    by (simp_all add: sched_two_calls_def sched_shutdown_def eval_defs Second_def)
  from second_shutdown_safe[OF r e(1), of 2] second_shutdown_safe[OF r e(1), of 0]
    second_shutdown_safe[OF r e(1), of 1] r e
  show ?thesis by auto
qed

text \<open>
  Claim C10. There is one configured duration. \<^verbatim>\<open>NewEnhancedCron\<close> sets it to 30
  seconds and only a \<^verbatim>\<open>WithTimeout\<close> option changes it (the last one wins); no
  statement of a run changes it; the deadline of the context that the wrapper derives at
  line 94 and the deadline of the context that \<^verbatim>\<open>Shutdown\<close> (which has no argument)
  creates at line 167 are both the clock plus that one field.
\<close>

theorem one_timeout_for_jobs_and_shutdown:
  "timeout (NewEnhancedCron []) = 30 * Second
   \<and> (\<not> list_ex isWithTimeout opts \<longrightarrow> timeout (NewEnhancedCron opts) = 30 * Second)
   \<and> timeout (NewEnhancedCron (opts @ [WithTimeout t])) = t
   \<and> (run as (boot opts) = Some g \<longrightarrow>
        timeout (ec g) = timeout (NewEnhancedCron opts)
        \<and> (step (Fire i n w) g = Some g1 \<longrightarrow>
             deadline (execs g1 i) = int (clock g) + timeout (NewEnhancedCron opts))
        \<and> (step (MkShutdownCtx c) g = Some g2 \<longrightarrow>
             sdeadline (shuts g2 c) = int (clock g) + timeout (NewEnhancedCron opts)))"
proof -
  have a: "timeout (NewEnhancedCron []) = 30 * Second" by (simp add: NewEnhancedCron_def)
  have b: "\<not> list_ex isWithTimeout opts \<longrightarrow> timeout (NewEnhancedCron opts) = 30 * Second"
    using NewEnhancedCron_timeout[of opts] by (auto simp: NewEnhancedCron_def)
  have c: "timeout (NewEnhancedCron (opts @ [WithTimeout t])) = t"
    by (simp add: NewEnhancedCron_def)
  have d: "timeout (ec g) = timeout (NewEnhancedCron opts)
        \<and> (step (Fire i n w) g = Some g1 \<longrightarrow>
             deadline (execs g1 i) = int (clock g) + timeout (NewEnhancedCron opts))
        \<and> (step (MkShutdownCtx c) g = Some g2 \<longrightarrow>
             sdeadline (shuts g2 c) = int (clock g) + timeout (NewEnhancedCron opts))"
    if r: "run as (boot opts) = Some g"
  proof -
    have t: "timeout (ec g) = timeout (NewEnhancedCron opts)"
      using timeout_run[OF r] by (simp add: boot_def)
    then show ?thesis by (auto simp: stmt_defs split: if_splits)
  qed
  from a b c d show ?thesis by blast
qed

theorem one_timeout_for_jobs_and_shutdown_witness:
  "\<not> list_ex isWithTimeout [WithLogger 1]
   \<and> timeout (NewEnhancedCron [WithLogger 1]) = 30 * Second
   \<and> run [Tick 7] (boot [WithLogger 1]) \<noteq> None
   \<and> timeout (ec (the (run [Tick 7] (boot [WithLogger 1])))) = 30 * Second
   \<and> step (Fire 0 ''my-job'' Returns) (the (run [Tick 7] (boot [WithLogger 1]))) \<noteq> None
   \<and> deadline (execs (the (step (Fire 0 ''my-job'' Returns) (the (run [Tick 7] (boot [WithLogger 1]))))) 0)
       = 7 + 30 * Second
   \<and> step (MkShutdownCtx 0) (the (run [Tick 7, CancelShutdown 0] (boot [WithLogger 1]))) \<noteq> None
   \<and> sdeadline (shuts (the (step (MkShutdownCtx 0) (the (run [Tick 7, CancelShutdown 0] (boot [WithLogger 1]))))) 0)
       = 7 + 30 * Second"
proof -
  let ?g = "the (run [Tick 7] (boot [WithLogger 1]))"
  let ?h = "the (run [Tick 7, CancelShutdown 0] (boot [WithLogger 1]))"
  have n: "\<not> list_ex isWithTimeout [WithLogger 1]" by simp
  have r: "run [Tick 7] (boot [WithLogger 1]) = Some ?g"
    and r2: "run [Tick 7, CancelShutdown 0] (boot [WithLogger 1]) = Some ?h"
    by (simp_all add: eval_defs)
  have f: "step (Fire 0 ''my-job'' Returns) ?g = Some (the (step (Fire 0 ''my-job'' Returns) ?g))"
    and m: "step (MkShutdownCtx 0) ?h = Some (the (step (MkShutdownCtx 0) ?h))"
    and ck: "clock ?g = 7" "clock ?h = 7"
    by (simp_all add: eval_defs)
  from one_timeout_for_jobs_and_shutdown[of "[WithLogger 1]" 0 "[Tick 7]" ?g 0 "''my-job''" Returns
      "the (step (Fire 0 ''my-job'' Returns) ?g)" 0 "the (step (MkShutdownCtx 0) ?h)"]
    one_timeout_for_jobs_and_shutdown[of "[WithLogger 1]" 0 "[Tick 7, CancelShutdown 0]" ?h 0 "''my-job''" Returns
      "the (step (Fire 0 ''my-job'' Returns) ?g)" 0 "the (step (MkShutdownCtx 0) ?h)"]
    n r r2 f m ck
  show ?thesis by auto
qed

end
